theory Spec2Isabelle
  imports Main "HOL-Library.AList" "HOL-Library.Multiset"
begin

section \<open>Data model\<close>

text \<open>
  The chat server keeps one directory of rooms (\<open>Hub.rooms\<close>), each room a set of
  sessions (\<open>Room.Clients\<close>), each session an outbound queue (\<open>Client.Send\<close>, a
  buffered Go channel). Go strings and byte slices are \<open>string\<close> (lists of bytes).
\<close>

record Message =
  Type :: string
  Room :: string
  Username :: string
  Text :: string
  Time :: string

record StatsMessage =
  TotalUsers :: int
  TotalRooms :: int
  RoomDetails :: "(string \<times> int) list option"

text \<open>
  A session. \<open>Conn\<close> and \<open>Send\<close> are references: \<open>Send\<close> is the address of the
  session's channel in the channel store below. Every session is made with a channel
  and a connection of its own, so the record stands for the pointer \<open>*Client\<close>.
\<close>

record Client =
  ID :: string
  Username :: string
  Conn :: nat
  Room :: string
  Send :: nat

text \<open>
  \<open>Clients\<close> is \<open>map[*Client]bool\<close>: only its keys matter (every stored value is
  \<open>true\<close>). The keys are listed without repetition. The order of the list is no part
  of the Go map: a \<open>range\<close> over the map visits the keys in an order Go leaves open
  and picks anew for every loop. The loop of \<open>broadcastToRoom\<close> gives the same result
  in every order (\<open>range_any_order\<close> below); the loop of \<open>handleCommand\<close>, whose
  result shows the order, takes it as a parameter.
\<close>

record Room =
  Name :: string
  Clients :: "Client list"

text \<open>
  A channel of byte slices: the queued payloads (oldest first), the capacity given to
  \<open>make\<close>, and whether \<open>close\<close> has been called.
\<close>

record chan =
  buf :: "string list"
  cap :: nat
  closed :: bool

text \<open>
  The state the Hub's functions read and write: the directory \<open>Hub.rooms\<close> as an
  association list, and the store of the sessions' channels.
\<close>

record Hub =
  rooms :: "(string \<times> Room) list"
  chans :: "nat \<Rightarrow> chan"

text \<open>
  What stops a goroutine of the server: Go panics on a send on a closed channel and on
  closing a closed channel; a blocking send on a full channel waits for a receiver.
\<close>

datatype fault = SendOnClosedChannel | CloseOfClosedChannel | BlockedOnFullChannel

text \<open>
  The values the program passes to \<open>json.Marshal\<close>. The encoder itself belongs to Go's
  standard library: every function below takes it as the parameter \<open>M\<close>.
\<close>

datatype json = JMessage Message | JStats StatsMessage | JCounts "(string \<times> int) list"

type_synonym encoder = "json \<Rightarrow> string"

text \<open>The wall clock \<open>time.Now()\<close> reads, as far as the layout \<open>15:04:05\<close> shows it.\<close>

record clock =
  hour :: nat
  minute :: nat
  second :: nat

datatype frame = ReadError | Frame "Message option"

datatype ws_result = Rejected400 | UpgradeFailed | Session Client

datatype op =
  Register Client clock
| Unregister Client clock
| Broadcast string Message
| Command Client string clock "Client \<Rightarrow> nat"
| Fetch Client

section \<open>Constants and library functions\<close>

definition MsgChat :: string where "MsgChat = ''chat''"
definition MsgSystem :: string where "MsgSystem = ''system''"
definition MsgUserList :: string where "MsgUserList = ''user_list''"
definition MsgStats :: string where "MsgStats = ''stats''"
definition MsgRoom :: string where "MsgRoom = ''room''"

definition digit :: "nat \<Rightarrow> char" where
  "digit n = ''0123456789'' ! (n mod 10)"

definition two_digits :: "nat \<Rightarrow> string" where
  "two_digits n = [digit (n div 10), digit n]"

text \<open>\<open>time.Time.Format("15:04:05")\<close>: hour, minute and second, two digits each.\<close>

definition Format :: "clock \<Rightarrow> string" where
  "Format t = two_digits (hour t) @ '':'' @ two_digits (minute t) @ '':'' @ two_digits (second t)"

function string_of_nat :: "nat \<Rightarrow> string" where
  "string_of_nat n = (if n < 10 then [digit n] else string_of_nat (n div 10) @ [digit n])"
  by pat_completeness auto
termination
  by (relation "measure id") auto

declare string_of_nat.simps [simp del]

definition HasPrefix :: "string \<Rightarrow> string \<Rightarrow> bool" where
  "HasPrefix s p = (take (length p) s = p)"

text \<open>\<open>strings.Join\<close>.\<close>

fun Join :: "string list \<Rightarrow> string \<Rightarrow> string" where
  "Join [] sep = []"
| "Join [x] sep = x"
| "Join (x # y # ys) sep = x @ sep @ Join (y # ys) sep"

text \<open>
  The UTF-8 encodings of the code points \<open>unicode.IsSpace\<close> accepts: tab, line feed,
  vertical tab, form feed, carriage return, space, U+0085, U+00A0, U+1680,
  U+2000 to U+200A, U+2028, U+2029, U+202F, U+205F and U+3000.
\<close>

definition space_runes :: "string list" where
  "space_runes =
    [[CHR 0x09], [CHR 0x0A], [CHR 0x0B], [CHR 0x0C], [CHR 0x0D], [CHR 0x20],
     [CHR 0xC2, CHR 0x85], [CHR 0xC2, CHR 0xA0], [CHR 0xE1, CHR 0x9A, CHR 0x80],
     [CHR 0xE2, CHR 0x80, CHR 0x80], [CHR 0xE2, CHR 0x80, CHR 0x81],
     [CHR 0xE2, CHR 0x80, CHR 0x82], [CHR 0xE2, CHR 0x80, CHR 0x83],
     [CHR 0xE2, CHR 0x80, CHR 0x84], [CHR 0xE2, CHR 0x80, CHR 0x85],
     [CHR 0xE2, CHR 0x80, CHR 0x86], [CHR 0xE2, CHR 0x80, CHR 0x87],
     [CHR 0xE2, CHR 0x80, CHR 0x88], [CHR 0xE2, CHR 0x80, CHR 0x89],
     [CHR 0xE2, CHR 0x80, CHR 0x8A], [CHR 0xE2, CHR 0x80, CHR 0xA8],
     [CHR 0xE2, CHR 0x80, CHR 0xA9], [CHR 0xE2, CHR 0x80, CHR 0xAF],
     [CHR 0xE2, CHR 0x81, CHR 0x9F], [CHR 0xE3, CHR 0x80, CHR 0x80]]"

text \<open>One leading word of \<open>ws\<close> removed, if the string starts with one.\<close>

definition strip_one :: "string list \<Rightarrow> string \<Rightarrow> string option" where
  "strip_one ws s =
     (case filter (\<lambda>w. w \<noteq> [] \<and> HasPrefix s w) ws of
        [] \<Rightarrow> None
      | w # _ \<Rightarrow> Some (drop (length w) s))"

fun strip_all :: "nat \<Rightarrow> string list \<Rightarrow> string \<Rightarrow> string" where
  "strip_all 0 ws s = s"
| "strip_all (Suc n) ws s =
     (case strip_one ws s of None \<Rightarrow> s | Some s' \<Rightarrow> strip_all n ws s')"

text \<open>
  \<open>strings.TrimSpace\<close>: the white-space code points are removed from the front, then
  from the back. Every removal drops a byte at least, so \<open>length s\<close> rounds are enough.
\<close>

definition TrimSpace :: "string \<Rightarrow> string" where
  "TrimSpace s =
     (let l = strip_all (length s) space_runes s
      in rev (strip_all (length l) (map rev space_runes) (rev l)))"

section \<open>Channels\<close>

definition make_chan :: "nat \<Rightarrow> chan" where
  "make_chan n = \<lparr>buf = [], cap = n, closed = False\<rparr>"

text \<open>\<open>close(ch)\<close> panics when the channel is closed already.\<close>

definition close_chan :: "nat \<Rightarrow> Hub \<Rightarrow> fault + Hub" where
  "close_chan r h =
     (if closed (chans h r) then Inl CloseOfClosedChannel
      else Inr (h\<lparr>chans := (chans h)(r := (chans h r)\<lparr>closed := True\<rparr>)\<rparr>))"

definition enqueue :: "nat \<Rightarrow> string \<Rightarrow> Hub \<Rightarrow> Hub" where
  "enqueue r data h = h\<lparr>chans := (chans h)(r := (chans h r)\<lparr>buf := buf (chans h r) @ [data]\<rparr>)\<rparr>"

text \<open>
  \<open>select { case ch <- data: ... default: ... }\<close>: the send panics on a closed channel,
  succeeds when the buffer has room, and otherwise the default branch runs (\<open>None\<close>).
\<close>

definition try_send :: "nat \<Rightarrow> string \<Rightarrow> Hub \<Rightarrow> fault + Hub option" where
  "try_send r data h =
     (if closed (chans h r) then Inl SendOnClosedChannel
      else if length (buf (chans h r)) < cap (chans h r) then Inr (Some (enqueue r data h))
      else Inr None)"

text \<open>
  \<open><-ch\<close> as the write loop uses it: the oldest payload leaves the buffer. With
  nothing queued the loop waits (or ends, when the channel is closed) and the channel
  is as before.
\<close>

definition fetch :: "nat \<Rightarrow> Hub \<Rightarrow> Hub" where
  "fetch r h = h\<lparr>chans := (chans h)(r := (chans h r)\<lparr>buf := tl (buf (chans h r))\<rparr>)\<rparr>"

text \<open>\<open>ch <- data\<close> outside a select: as above, but a full buffer blocks the sender.\<close>

definition send :: "nat \<Rightarrow> string \<Rightarrow> Hub \<Rightarrow> fault + Hub" where
  "send r data h =
     (if closed (chans h r) then Inl SendOnClosedChannel
      else if length (buf (chans h r)) < cap (chans h r) then Inr (enqueue r data h)
      else Inl BlockedOnFullChannel)"

section \<open>The Hub\<close>

definition newHub :: "(nat \<Rightarrow> chan) \<Rightarrow> Hub" where
  "newHub store = \<lparr>rooms = [], chans = store\<rparr>"

text \<open>\<open>delete(room.Clients, client)\<close> on the room the directory holds under \<open>name\<close>.\<close>

definition delete_client :: "string \<Rightarrow> Client \<Rightarrow> Hub \<Rightarrow> Hub" where
  "delete_client name client h =
     (case map_of (rooms h) name of
        None \<Rightarrow> h
      | Some room \<Rightarrow>
          h\<lparr>rooms := AList.update name (room\<lparr>Clients := removeAll client (Clients room)\<rparr>) (rooms h)\<rparr>)"

text \<open>\<open>room.Clients[client] = true\<close>.\<close>

definition add_client :: "string \<Rightarrow> Client \<Rightarrow> Hub \<Rightarrow> Hub" where
  "add_client name client h =
     (case map_of (rooms h) name of
        None \<Rightarrow> h
      | Some room \<Rightarrow>
          if client \<in> set (Clients room) then h
          else h\<lparr>rooms := AList.update name (room\<lparr>Clients := Clients room @ [client]\<rparr>) (rooms h)\<rparr>)"

text \<open>\<open>len(room.Clients)\<close>, read through the room the directory holds under \<open>name\<close>.\<close>

definition room_len :: "Hub \<Rightarrow> string \<Rightarrow> nat" where
  "room_len h name = (case map_of (rooms h) name of None \<Rightarrow> 0 | Some room \<Rightarrow> length (Clients room))"

text \<open>
  The \<open>range\<close> loop of \<open>broadcastToRoom\<close> over the members present when it starts. The
  loop deletes only the member it is visiting, so every member is visited once.
\<close>

fun broadcast_range :: "string \<Rightarrow> string \<Rightarrow> Client list \<Rightarrow> Hub \<Rightarrow> fault + Hub" where
  "broadcast_range roomName data [] h = Inr h"
| "broadcast_range roomName data (client # rest) h =
     (case try_send (Send client) data h of
        Inl e \<Rightarrow> Inl e
      | Inr (Some h') \<Rightarrow> broadcast_range roomName data rest h'
      | Inr None \<Rightarrow>
          (case close_chan (Send client) h of
             Inl e \<Rightarrow> Inl e
           | Inr h' \<Rightarrow> broadcast_range roomName data rest (delete_client roomName client h')))"

definition broadcastToRoom :: "encoder \<Rightarrow> Hub \<Rightarrow> string \<Rightarrow> Message \<Rightarrow> fault + Hub" where
  "broadcastToRoom M h roomName msg =
     (case map_of (rooms h) roomName of
        None \<Rightarrow> Inr h
      | Some room \<Rightarrow> broadcast_range roomName (M (JMessage msg)) (Clients room) h)"

definition sendToClient :: "encoder \<Rightarrow> Hub \<Rightarrow> Client \<Rightarrow> Message \<Rightarrow> fault + Hub" where
  "sendToClient M h client msg =
     (case try_send (Send client) (M (JMessage msg)) h of
        Inl e \<Rightarrow> Inl e
      | Inr (Some h') \<Rightarrow> Inr h'
      | Inr None \<Rightarrow> close_chan (Send client) h)"

text \<open>The notices \<open>addClientToRoom\<close> and \<open>removeClientFromRoom\<close> build in \<open>msg\<close>.\<close>

definition join_notice :: "Client \<Rightarrow> clock \<Rightarrow> Message" where
  "join_notice client now =
     \<lparr>Type = ''system'', Room = Client.Room client, Username = [],
      Text = Client.Username client @ '' joined the room'', Time = Format now\<rparr>"

definition leave_notice :: "Client \<Rightarrow> clock \<Rightarrow> Message" where
  "leave_notice client now =
     \<lparr>Type = ''system'', Room = Client.Room client, Username = [],
      Text = Client.Username client @ '' left the room'', Time = Format now\<rparr>"

definition addClientToRoom :: "encoder \<Rightarrow> Hub \<Rightarrow> Client \<Rightarrow> clock \<Rightarrow> fault + Hub" where
  "addClientToRoom M h client now =
     (let h1 = (case map_of (rooms h) (Client.Room client) of
                  Some room \<Rightarrow> h
                | None \<Rightarrow>
                    h\<lparr>rooms := AList.update (Client.Room client)
                                 \<lparr>Name = Client.Room client, Clients = []\<rparr> (rooms h)\<rparr>);
          h2 = add_client (Client.Room client) client h1;
          msg = join_notice client now
      in broadcastToRoom M h2 (Client.Room client) msg)"

definition removeClientFromRoom :: "encoder \<Rightarrow> Hub \<Rightarrow> Client \<Rightarrow> clock \<Rightarrow> fault + Hub" where
  "removeClientFromRoom M h client now =
     (case map_of (rooms h) (Client.Room client) of
        None \<Rightarrow> Inr h
      | Some room \<Rightarrow>
          (case (if client \<in> set (Clients room)
                 then close_chan (Send client) (delete_client (Client.Room client) client h)
                 else Inr h) of
             Inl e \<Rightarrow> Inl e
           | Inr h1 \<Rightarrow>
               (case broadcastToRoom M h1 (Client.Room client) (leave_notice client now) of
                  Inl e \<Rightarrow> Inl e
                | Inr h2 \<Rightarrow>
                    Inr (if room_len h2 (Client.Room client) = 0
                         then h2\<lparr>rooms := AList.delete (Client.Room client) (rooms h2)\<rparr>
                         else h2))))"

text \<open>
  \<open>handleCommand\<close>. The loop \<open>for c := range room.Clients\<close> of the \<open>/users\<close> branch
  appends the usernames in the order the range visits the members. \<open>rank\<close> is that
  order for this call: the member of lower rank is visited first, so that the members
  are visited as \<open>sort_key rank\<close> lists them, which is a permutation of the membership
  for every \<open>rank\<close>, and every permutation for some \<open>rank\<close> (\<open>any_order_has_rank\<close>
  below). The room-missing reply is sent with a plain send, the other replies through
  \<open>sendToClient\<close>.
\<close>

definition handleCommand ::
  "encoder \<Rightarrow> (Client \<Rightarrow> nat) \<Rightarrow> Hub \<Rightarrow> Client \<Rightarrow> string \<Rightarrow> clock \<Rightarrow> fault + Hub" where
  "handleCommand M rank h client cmd now =
     (case map_of (rooms h) (Client.Room client) of
        None \<Rightarrow>
          send (Send client)
            (M (JMessage \<lparr>Type = MsgSystem, Room = [], Username = [],
                          Text = ''Room does not exist.'', Time = []\<rparr>)) h
      | Some room \<Rightarrow>
          (let userCount = map (\<lambda>(r, rm). (r, int (length (Clients rm)))) (rooms h)
           in if cmd = ''/users'' then
                sendToClient M h client
                  \<lparr>Type = MsgUserList, Room = Name room, Username = Client.Username client,
                   Text = Join (map Client.Username (sort_key rank (Clients room))) '', '',
                   Time = Format now\<rparr>
              else if cmd = ''/stats'' then
                sendToClient M h client
                  \<lparr>Type = MsgStats, Room = Name room, Username = Client.Username client,
                   Text = M (JStats \<lparr>TotalUsers = sum_list (map snd userCount),
                                      TotalRooms = int (length (rooms h)),
                                      RoomDetails = None\<rparr>),
                   Time = Format now\<rparr>
              else if cmd = ''/rooms'' then
                sendToClient M h client
                  \<lparr>Type = MsgRoom, Room = Name room, Username = Client.Username client,
                   Text = M (JCounts userCount), Time = Format now\<rparr>
              else
                sendToClient M h client
                  \<lparr>Type = MsgSystem, Room = [], Username = [],
                   Text = ''Unknown command. Available commands: /users, /stats, /rooms'',
                   Time = []\<rparr>))"

section \<open>The session's read loop and the connection handler\<close>

text \<open>
  \<open>readPump\<close> over the frames the connection delivers, each with the clock reading of
  its turn and the order a range over the room's members takes in that turn. A read
  error ends the loop and the deferred unregistration runs; when the frames run out
  the loop is waiting for the next one.
\<close>

fun readPump ::
  "encoder \<Rightarrow> Client \<Rightarrow> (frame \<times> clock \<times> (Client \<Rightarrow> nat)) list \<Rightarrow> Hub \<Rightarrow> fault + Hub" where
  "readPump M c [] h = Inr h"
| "readPump M c ((ReadError, now, rank) # fs) h = removeClientFromRoom M h c now"
| "readPump M c ((Frame None, now, rank) # fs) h = readPump M c fs h"
| "readPump M c ((Frame (Some msg), now, rank) # fs) h =
     (if HasPrefix (Text msg) ''/'' then
        (case handleCommand M rank h c (Text msg) now of
           Inl e \<Rightarrow> Inl e
         | Inr h' \<Rightarrow> readPump M c fs h')
      else
        (case broadcastToRoom M h (Client.Room c)
                (msg\<lparr>Message.Username := Client.Username c, Message.Room := Client.Room c,
                     Type := ''chat'', Time := Format now\<rparr>) of
           Inl e \<Rightarrow> Inl e
         | Inr h' \<Rightarrow> readPump M c fs h'))"

text \<open>
  \<open>handleWebSocket\<close> up to the hand-over to the Hub: \<open>username\<close> and \<open>room\<close> are the
  query parameters (empty when absent), \<open>upgrade\<close> the connection the upgrader returns
  (\<open>None\<close> when it fails), \<open>unix\<close> the clock's seconds and \<open>ref\<close> the address of the
  channel \<open>make\<close> returns.
\<close>

definition handleWebSocket ::
  "string \<Rightarrow> string \<Rightarrow> nat option \<Rightarrow> nat \<Rightarrow> nat \<Rightarrow> Hub \<Rightarrow> ws_result \<times> Hub" where
  "handleWebSocket username room upgrade unix ref h =
     (if username = [] \<or> room = [] then (Rejected400, h)
      else
        (let room' = TrimSpace room
         in case upgrade of
              None \<Rightarrow> (UpgradeFailed, h)
            | Some conn \<Rightarrow>
                (Session \<lparr>ID = username @ ''-'' @ string_of_nat unix, Username = username,
                          Conn = conn, Room = room', Send = ref\<rparr>,
                 h\<lparr>chans := (chans h)(ref := make_chan 256)\<rparr>)))"

text \<open>
  A run of the server in which the operations do not overlap: each one ends before the
  next begins. The Hub's loop serves a registration or an unregistration, a session's
  read loop broadcasts a message or hands a command to the Hub, or a session's write
  loop (\<open>writePump\<close>) takes the next payload from its queue. The server itself runs
  every read loop on a goroutine of its own, and \<open>broadcastToRoom\<close> only takes the
  room's read lock, which any number of goroutines hold together: two broadcasts may
  overlap, and \<open>run\<close> does not cover such executions.
\<close>

fun step :: "encoder \<Rightarrow> Hub \<Rightarrow> op \<Rightarrow> fault + Hub" where
  "step M h (Register client now) = addClientToRoom M h client now"
| "step M h (Unregister client now) = removeClientFromRoom M h client now"
| "step M h (Broadcast roomName msg) = broadcastToRoom M h roomName msg"
| "step M h (Command client cmd now rank) = handleCommand M rank h client cmd now"
| "step M h (Fetch client) = Inr (fetch (Send client) h)"

fun run :: "encoder \<Rightarrow> Hub \<Rightarrow> op list \<Rightarrow> fault + Hub" where
  "run M h [] = Inr h"
| "run M h (x # xs) = (case step M h x of Inl e \<Rightarrow> Inl e | Inr h' \<Rightarrow> run M h' xs)"

section \<open>Notions the properties are stated with\<close>

text \<open>The members of the room the directory holds under \<open>name\<close> (none when absent).\<close>

definition members :: "Hub \<Rightarrow> string \<Rightarrow> Client list" where
  "members h name = (case map_of (rooms h) name of None \<Rightarrow> [] | Some room \<Rightarrow> Clients room)"

definition has_room :: "Hub \<Rightarrow> Client \<Rightarrow> bool" where
  "has_room h c = (length (buf (chans h (Send c))) < cap (chans h (Send c)))"

text \<open>
  What one broadcast does to the open queue of a member: the payload is appended when
  the buffer has room, and the queue is closed when it is full.
\<close>

definition offer :: "string \<Rightarrow> chan \<Rightarrow> chan" where
  "offer data ch =
     (if length (buf ch) < cap ch then ch\<lparr>buf := buf ch @ [data]\<rparr> else ch\<lparr>closed := True\<rparr>)"

text \<open>The sessions \<open>cs\<close> have queues of their own, none of them closed.\<close>

definition open_queues :: "Hub \<Rightarrow> Client list \<Rightarrow> bool" where
  "open_queues h cs = (distinct (map Send cs) \<and> list_all (\<lambda>c. \<not> closed (chans h (Send c))) cs)"

text \<open>Every session that is a member of some room, room by room.\<close>

definition room_members :: "(string \<times> Room) list \<Rightarrow> Client list" where
  "room_members al = concat (map (\<lambda>(n, room). Clients room) al)"


text \<open>Every member of a room names that room.\<close>

definition rooms_named :: "(string \<times> Room) list \<Rightarrow> bool" where
  "rooms_named al = list_all (\<lambda>(n, room). list_all (\<lambda>c. Client.Room c = n) (Clients room)) al"









text \<open>A stand-in for the encoder when the model is run on examples: the message's text.\<close>

definition text_only :: encoder where
  "text_only j = (case j of JMessage m \<Rightarrow> Text m | JStats s \<Rightarrow> [] | JCounts c \<Rightarrow> [])"

section \<open>Example sessions and states\<close>

definition t0 :: clock where
  "t0 = \<lparr>hour = 9, minute = 5, second = 0\<rparr>"

definition bob :: Client where
  "bob = \<lparr>ID = ''bob-0'', Username = ''bob'', Conn = 1, Room = ''lobby'', Send = 1\<rparr>"

definition ann :: Client where
  "ann = \<lparr>ID = ''ann-0'', Username = ''ann'', Conn = 2, Room = ''lobby'', Send = 2\<rparr>"

definition carl :: Client where
  "carl = \<lparr>ID = ''carl-0'', Username = ''carl'', Conn = 3, Room = ''lobby'', Send = 3\<rparr>"

definition hello :: Message where
  "hello = \<lparr>Type = ''chat'', Room = ''lobby'', Username = ''bob'', Text = ''hello'', Time = ''09:05:00''\<rparr>"

text \<open>A frame in which the client fills in the fields the server is to set.\<close>

definition spoof :: Message where
  "spoof = \<lparr>Type = ''system'', Room = ''staff'', Username = ''admin'', Text = ''hi'', Time = []\<rparr>"

text \<open>
  Two orders a range over the members may take: the order of the list, and \<open>ann\<close>
  before everybody else.
\<close>

definition as_listed :: "Client \<Rightarrow> nat" where
  "as_listed c = 0"

definition ann_first :: "Client \<Rightarrow> nat" where
  "ann_first c = (if c = ann then 0 else 1)"

text \<open>A store in which every address holds a channel as \<open>handleWebSocket\<close> makes it.\<close>

definition fresh_store :: "nat \<Rightarrow> chan" where
  "fresh_store r = make_chan 256"

text \<open>
  The queue of \<open>bob\<close> after his registration and 255 messages to his room, none of
  them fetched by his write loop: it holds 256 payloads and is full.
\<close>

definition full_queue :: chan where
  "full_queue =
     \<lparr>buf = ''bob joined the room'' # replicate 255 ''hello'', cap = 256, closed = False\<rparr>"

text \<open>The room \<open>lobby\<close> with the single member \<open>bob\<close>, whose queue is full.\<close>

definition lobby_full :: Hub where
  "lobby_full =
     \<lparr>rooms = [(''lobby'', \<lparr>Name = ''lobby'', Clients = [bob]\<rparr>)],
      chans = fresh_store(1 := full_queue)\<rparr>"

text \<open>
  The queue of \<open>bob\<close> after his registration, 254 messages and the registration of
  \<open>ann\<close>: full as well.
\<close>

definition backlog :: chan where
  "backlog =
     \<lparr>buf = ''bob joined the room'' # replicate 254 ''hello'' @ [''ann joined the room''],
      cap = 256, closed = False\<rparr>"

text \<open>
  The room \<open>lobby\<close> with \<open>bob\<close>, whose queue is full, and \<open>ann\<close>, who has just joined.
\<close>

definition lobby_two :: Hub where
  "lobby_two =
     \<lparr>rooms = [(''lobby'', \<lparr>Name = ''lobby'', Clients = [bob, ann]\<rparr>)],
      chans = fresh_store
        (1 := backlog,
         2 := \<lparr>buf = [''ann joined the room''], cap = 256, closed = False\<rparr>)\<rparr>"

text \<open>The same room after a direct reply to \<open>bob\<close> has closed his queue.\<close>

definition lobby_shut :: Hub where
  "lobby_shut =
     \<lparr>rooms = [(''lobby'', \<lparr>Name = ''lobby'', Clients = [bob, ann]\<rparr>)],
      chans = fresh_store
        (1 := backlog\<lparr>closed := True\<rparr>,
         2 := \<lparr>buf = [''ann joined the room''], cap = 256, closed = False\<rparr>)\<rparr>"

text \<open>
  The room of \<open>lobby_two\<close> after one more message: \<open>bob\<close> has been evicted and
  \<open>ann\<close> is the only member.
\<close>

definition lobby_ann :: Hub where
  "lobby_ann =
     \<lparr>rooms = [(''lobby'', \<lparr>Name = ''lobby'', Clients = [ann]\<rparr>)],
      chans = fresh_store
        (1 := backlog\<lparr>closed := True\<rparr>,
         2 := \<lparr>buf = [''ann joined the room'', ''hello''], cap = 256, closed = False\<rparr>)\<rparr>"

section \<open>Library functions on the examples\<close>

lemma TrimSpace_blank: "TrimSpace '' '' = []"
  by (simp add: TrimSpace_def strip_one_def space_runes_def HasPrefix_def)

lemma TrimSpace_lobby: "TrimSpace ''lobby'' = ''lobby''"
  by (simp add: TrimSpace_def strip_one_def space_runes_def HasPrefix_def)

lemma string_of_nat_0: "string_of_nat 0 = ''0''"
  by (simp add: digit_def string_of_nat.simps)

section \<open>The broadcast loop\<close>

lemma delete_client_chans [simp]: "chans (delete_client name c h) = chans h"
  by (simp add: delete_client_def split: option.splits)

lemma enqueue_rooms [simp]: "rooms (enqueue r data h) = rooms h"
  by (simp add: enqueue_def)

text \<open>A member whose queue is closed makes the loop panic, wherever it stands in the order.\<close>

lemma range_closed:
  "\<exists>c\<in>set cs. closed (chans h (Send c)) \<Longrightarrow>
   broadcast_range name data cs h = Inl SendOnClosedChannel"
proof (induction cs arbitrary: h)
  case Nil
  then show ?case by simp
next
  case (Cons a cs)
  show ?case
  proof (cases "closed (chans h (Send a))")
    case True
    then show ?thesis by (simp add: try_send_def)
  next
    case False
    with Cons.prems obtain c where c: "c \<in> set cs" "closed (chans h (Send c))" by auto
    show ?thesis
    proof (cases "length (buf (chans h (Send a))) < cap (chans h (Send a))")
      case True
      have "closed (chans (enqueue (Send a) data h) (Send c))"
        using c False by (cases "Send c = Send a") (auto simp: enqueue_def)
      with c(1) have "\<exists>c\<in>set cs. closed (chans (enqueue (Send a) data h) (Send c))"
        by blast
      from Cons.IH[OF this] show ?thesis using False True by (simp add: try_send_def)
    next
      case full: False
      let ?h' = "h\<lparr>chans := (chans h)(Send a := (chans h (Send a))\<lparr>closed := True\<rparr>)\<rparr>"
      have "closed (chans (delete_client name a ?h') (Send c))"
        using c by (cases "Send c = Send a") auto
      with c(1) have "\<exists>c\<in>set cs. closed (chans (delete_client name a ?h') (Send c))"
        by blast
      from Cons.IH[OF this] show ?thesis using False full
        by (simp add: try_send_def close_chan_def)
    qed
  qed
qed

lemma broadcast_closed_member:
  assumes "c \<in> set (members h name)" and "closed (chans h (Send c))"
  shows "broadcastToRoom M h name msg = Inl SendOnClosedChannel"
proof -
  from assms(1) obtain room where room: "map_of (rooms h) name = Some room"
    and c: "c \<in> set (Clients room)"
    by (cases "map_of (rooms h) name") (auto simp: members_def)
  from c assms(2) have "\<exists>c\<in>set (Clients room). closed (chans h (Send c))" by blast
  from range_closed[OF this] room show ?thesis by (simp add: broadcastToRoom_def)
qed

lemma has_room_enqueue_other:
  "Send c \<noteq> r \<Longrightarrow> has_room (enqueue r data h) c = has_room h c"
  by (simp add: has_room_def enqueue_def)

lemma range_open:
  assumes "map_of (rooms h) name = Some room" and "open_queues h cs"
  shows "broadcast_range name data cs h =
     Inr (h\<lparr>rooms := AList.update name
                     (room\<lparr>Clients := filter (\<lambda>c. c \<notin> set cs \<or> has_room h c) (Clients room)\<rparr>)
                     (rooms h),
            chans := (\<lambda>r. if r \<in> Send ` set cs then offer data (chans h r) else chans h r)\<rparr>)"
  using assms
proof (induction cs arbitrary: h room)
  case Nil
  then show ?case by (simp add: update_triv)
next
  case (Cons a cs)
  from Cons.prems(2) have open_a: "\<not> closed (chans h (Send a))"
    and fresh_a: "Send a \<notin> Send ` set cs" and dist: "distinct (map Send cs)"
    and open_cs: "list_all (\<lambda>c. \<not> closed (chans h (Send c))) cs"
    by (auto simp: open_queues_def)
  have a_notin: "a \<notin> set cs" using fresh_a by auto
  have neq: "\<And>c. c \<in> set cs \<Longrightarrow> Send c \<noteq> Send a"
    using fresh_a by (metis imageI)
  show ?case
  proof (cases "has_room h a")
    case True
    let ?h1 = "enqueue (Send a) data h"
    have r1: "map_of (rooms ?h1) name = Some room" using Cons.prems(1) by simp
    have o1: "open_queues ?h1 cs"
      using dist open_cs neq by (auto simp: open_queues_def enqueue_def list_all_iff)
    have step: "broadcast_range name data (a # cs) h = broadcast_range name data cs ?h1"
      using open_a True by (simp add: try_send_def has_room_def)
    have hr: "\<And>c. c \<in> set cs \<Longrightarrow> has_room ?h1 c = has_room h c"
      using neq by (intro has_room_enqueue_other) auto
    have filt: "filter (\<lambda>c. c \<notin> set cs \<or> has_room ?h1 c) (Clients room)
              = filter (\<lambda>c. c \<notin> set (a # cs) \<or> has_room h c) (Clients room)"
      using True a_notin hr
      by (intro filter_cong refl) auto
    have ch: "(\<lambda>r. if r \<in> Send ` set cs then offer data (chans ?h1 r) else chans ?h1 r)
            = (\<lambda>r. if r \<in> Send ` set (a # cs) then offer data (chans h r) else chans h r)"
      using True fresh_a by (auto simp: fun_eq_iff enqueue_def offer_def has_room_def)
    show ?thesis
      unfolding step Cons.IH[OF r1 o1] filt ch by (simp add: enqueue_def)
  next
    case False
    let ?hc = "h\<lparr>chans := (chans h)(Send a := (chans h (Send a))\<lparr>closed := True\<rparr>)\<rparr>"
    let ?room1 = "room\<lparr>Clients := removeAll a (Clients room)\<rparr>"
    let ?h1 = "delete_client name a ?hc"
    have h1: "?h1 = ?hc\<lparr>rooms := AList.update name ?room1 (rooms h)\<rparr>"
      using Cons.prems(1) by (simp add: delete_client_def)
    have r1: "map_of (rooms ?h1) name = Some ?room1"
      unfolding h1 by (simp add: update_conv')
    have o1: "open_queues ?h1 cs"
      using dist open_cs neq by (auto simp: open_queues_def list_all_iff)
    have step: "broadcast_range name data (a # cs) h = broadcast_range name data cs ?h1"
      using open_a False by (simp add: try_send_def has_room_def close_chan_def)
    have hr: "\<And>c. c \<in> set cs \<Longrightarrow> has_room ?h1 c = has_room h c"
      using neq by (auto simp: has_room_def)
    have filt: "filter (\<lambda>c. c \<notin> set cs \<or> has_room ?h1 c) (removeAll a (Clients room))
              = filter (\<lambda>c. c \<notin> set (a # cs) \<or> has_room h c) (Clients room)"
      unfolding removeAll_filter_not_eq filter_filter
      using False a_notin hr by (intro filter_cong refl) auto
    have ch: "(\<lambda>r. if r \<in> Send ` set cs then offer data (chans ?h1 r) else chans ?h1 r)
            = (\<lambda>r. if r \<in> Send ` set (a # cs) then offer data (chans h r) else chans h r)"
      using False fresh_a by (auto simp: fun_eq_iff offer_def has_room_def)
    show ?thesis
      unfolding step Cons.IH[OF r1 o1] ch
      using filt by (simp add: h1)
  qed
qed


text \<open>The order in which the loop visits the members makes no difference to its result.\<close>

lemma range_any_order:
  assumes "map_of (rooms h) name = Some room" and "distinct (map Send cs)"
    and "mset cs' = mset cs"
  shows "broadcast_range name data cs' h = broadcast_range name data cs h"
proof -
  from assms(3) have s: "set cs' = set cs" by (rule mset_eq_setD)
  from assms(3) have "mset (map Send cs') = mset (map Send cs)" by simp
  with assms(2) have d: "distinct (map Send cs')" by (metis mset_eq_imp_distinct_iff)
  show ?thesis
  proof (cases "\<exists>c\<in>set cs. closed (chans h (Send c))")
    case True
    with s have "\<exists>c\<in>set cs'. closed (chans h (Send c))" by simp
    from range_closed[OF this] range_closed[OF True] show ?thesis by simp
  next
    case False
    with assms(2) have o: "open_queues h cs" by (simp add: open_queues_def list_all_iff)
    from False s d have o': "open_queues h cs'" by (simp add: open_queues_def list_all_iff)
    show ?thesis unfolding range_open[OF assms(1) o] range_open[OF assms(1) o'] s ..
  qed
qed

section \<open>Runs that reach the example states\<close>

lemma run_append:
  "run M h (xs @ ys) = (case run M h xs of Inl e \<Rightarrow> Inl e | Inr h' \<Rightarrow> run M h' ys)"
  by (induction xs arbitrary: h) (auto split: sum.splits)

lemma run_broadcasts_fill:
  assumes "rooms h = [(name, \<lparr>Name = name, Clients = [c]\<rparr>)]"
    and "\<not> closed (chans h (Send c))"
    and "length (buf (chans h (Send c))) + n \<le> cap (chans h (Send c))"
  shows "run M h (replicate n (Broadcast name msg)) =
     Inr (h\<lparr>chans := (chans h)(Send c := (chans h (Send c))
              \<lparr>buf := buf (chans h (Send c)) @ replicate n (M (JMessage msg))\<rparr>)\<rparr>)"
  using assms
proof (induction n arbitrary: h)
  case 0
  then show ?case by simp
next
  case (Suc n)
  let ?h1 = "enqueue (Send c) (M (JMessage msg)) h"
  have s: "broadcastToRoom M h name msg = Inr ?h1"
    using Suc.prems by (simp add: broadcastToRoom_def try_send_def)
  have "run M ?h1 (replicate n (Broadcast name msg)) =
     Inr (?h1\<lparr>chans := (chans ?h1)(Send c := (chans ?h1 (Send c))
              \<lparr>buf := buf (chans ?h1 (Send c)) @ replicate n (M (JMessage msg))\<rparr>)\<rparr>)"
    using Suc.prems by (intro Suc.IH) (simp_all add: enqueue_def)
  then show ?case
    using s by (cases h) (simp add: enqueue_def replicate_app_Cons_same fun_eq_iff)
qed


lemma register_bob:
  "addClientToRoom text_only (newHub fresh_store) bob t0 =
     Inr \<lparr>rooms = [(''lobby'', \<lparr>Name = ''lobby'', Clients = [bob]\<rparr>)],
          chans = fresh_store(1 := \<lparr>buf = [''bob joined the room''], cap = 256, closed = False\<rparr>)\<rparr>"
  by (simp add: addClientToRoom_def add_client_def broadcastToRoom_def try_send_def
      enqueue_def newHub_def fresh_store_def make_chan_def join_notice_def text_only_def
      bob_def Let_def)

lemma bob_and_messages:
  assumes "n \<le> 255"
  shows "run text_only (newHub fresh_store) (Register bob t0 # replicate n (Broadcast ''lobby'' hello)) =
     Inr \<lparr>rooms = [(''lobby'', \<lparr>Name = ''lobby'', Clients = [bob]\<rparr>)],
          chans = fresh_store(1 := \<lparr>buf = ''bob joined the room'' # replicate n ''hello'',
                                     cap = 256, closed = False\<rparr>)\<rparr>"
proof -
  let ?h1 = "\<lparr>rooms = [(''lobby'', \<lparr>Name = ''lobby'', Clients = [bob]\<rparr>)],
              chans = fresh_store(1 := \<lparr>buf = [''bob joined the room''], cap = 256, closed = False\<rparr>)\<rparr>"
  have f: "run text_only ?h1 (replicate n (Broadcast ''lobby'' hello)) =
     Inr (?h1\<lparr>chans := (chans ?h1)(Send bob := (chans ?h1 (Send bob))
              \<lparr>buf := buf (chans ?h1 (Send bob)) @ replicate n (text_only (JMessage hello))\<rparr>)\<rparr>)"
    using assms by (intro run_broadcasts_fill) (simp_all add: bob_def)
  have e: "?h1\<lparr>chans := (chans ?h1)(Send bob := (chans ?h1 (Send bob))
              \<lparr>buf := buf (chans ?h1 (Send bob)) @ replicate n (text_only (JMessage hello))\<rparr>)\<rparr>
      = \<lparr>rooms = [(''lobby'', \<lparr>Name = ''lobby'', Clients = [bob]\<rparr>)],
          chans = fresh_store(1 := \<lparr>buf = ''bob joined the room'' # replicate n ''hello'',
                                     cap = 256, closed = False\<rparr>)\<rparr>"
    by (simp add: bob_def text_only_def hello_def)
  have "run text_only (newHub fresh_store) (Register bob t0 # replicate n (Broadcast ''lobby'' hello))
      = run text_only ?h1 (replicate n (Broadcast ''lobby'' hello))"
    by (simp add: register_bob)
  with f e show ?thesis by simp
qed

lemma lobby_full_reached:
  "run text_only (newHub fresh_store) (Register bob t0 # replicate 255 (Broadcast ''lobby'' hello)) =
     Inr lobby_full"
  using bob_and_messages[of 255] by (simp add: lobby_full_def full_queue_def)

lemma lobby_two_reached:
  "run text_only (newHub fresh_store)
     (Register bob t0 # replicate 254 (Broadcast ''lobby'' hello) @ [Register ann t0]) =
     Inr lobby_two"
proof -
  let ?h2 = "\<lparr>rooms = [(''lobby'', \<lparr>Name = ''lobby'', Clients = [bob]\<rparr>)],
          chans = fresh_store(1 := \<lparr>buf = ''bob joined the room'' # replicate 254 ''hello'',
                                     cap = 256, closed = False\<rparr>)\<rparr>"
  have a: "addClientToRoom text_only ?h2 ann t0 = Inr lobby_two"
    by (simp add: addClientToRoom_def add_client_def broadcastToRoom_def try_send_def
        enqueue_def fresh_store_def make_chan_def join_notice_def text_only_def
        bob_def ann_def lobby_two_def backlog_def Let_def fun_eq_iff)
  have "run text_only (newHub fresh_store)
     ((Register bob t0 # replicate 254 (Broadcast ''lobby'' hello)) @ [Register ann t0]) =
     Inr lobby_two"
    unfolding run_append using bob_and_messages[of 254] a by simp
  then show ?thesis by simp
qed

lemma lobby_shut_reached:
  "run text_only (newHub fresh_store)
     (Register bob t0 # replicate 254 (Broadcast ''lobby'' hello)
        @ [Register ann t0, Command bob ''/users'' t0 as_listed]) =
     Inr lobby_shut"
proof -
  have c: "handleCommand text_only as_listed lobby_two bob ''/users'' t0 = Inr lobby_shut"
    by (simp add: handleCommand_def sendToClient_def try_send_def close_chan_def lobby_two_def
        lobby_shut_def bob_def ann_def backlog_def fun_eq_iff)
  have "run text_only (newHub fresh_store)
     ((Register bob t0 # replicate 254 (Broadcast ''lobby'' hello) @ [Register ann t0])
        @ [Command bob ''/users'' t0 as_listed]) =
     Inr lobby_shut"
    unfolding run_append using lobby_two_reached c by simp
  then show ?thesis by simp
qed

section \<open>Broadcasts\<close>

text \<open>The effect of a broadcast in closed form, when the members' queues are open.\<close>

lemma broadcast_open:
  assumes "map_of (rooms h) name = Some room" and "open_queues h (Clients room)"
  shows "broadcastToRoom M h name msg =
     Inr (h\<lparr>rooms := AList.update name
                     (room\<lparr>Clients := filter (has_room h) (Clients room)\<rparr>) (rooms h),
            chans := (\<lambda>r. if r \<in> Send ` set (Clients room)
                          then offer (M (JMessage msg)) (chans h r) else chans h r)\<rparr>)"
proof -
  have "filter (\<lambda>c. c \<notin> set (Clients room) \<or> has_room h c) (Clients room)
      = filter (has_room h) (Clients room)"
    by (intro filter_cong refl) auto
  with range_open[OF assms] assms(1) show ?thesis by (simp add: broadcastToRoom_def)
qed

text \<open>
  What a broadcast does in a room in which every member has an open queue of its own.
  It completes; every member is offered the same payload, the encoding of the message:
  it is appended to the queue when the queue has room, and otherwise the queue is
  closed and the member leaves the membership. The directory keeps its names, every
  other room is as it was, and no queue outside the room's membership changes.
\<close>

lemma broadcast_reaches_members_or_evicts:
  assumes "map_of (rooms h) name = Some room" and "open_queues h (Clients room)"
  shows "\<exists>h'. broadcastToRoom M h name msg = Inr h'
           \<and> map fst (rooms h') = map fst (rooms h)
           \<and> members h' name = filter (has_room h) (Clients room)
           \<and> (\<forall>c\<in>set (Clients room).
                  chans h' (Send c) = offer (M (JMessage msg)) (chans h (Send c)))
           \<and> (\<forall>r. r \<notin> Send ` set (Clients room) \<longrightarrow> chans h' r = chans h r)
           \<and> (\<forall>n. n \<noteq> name \<longrightarrow> map_of (rooms h') n = map_of (rooms h) n)"
proof -
  have k: "name \<in> fst ` set (rooms h)"
    using assms(1) by (metis domI dom_map_of_conv_image_fst)
  show ?thesis
    unfolding broadcast_open[OF assms]
    using k by (simp add: members_def update_conv' update_keys)
qed

text \<open>
  C4 on the code. From the empty directory: \<open>bob\<close> is registered, 254 messages are
  broadcast to his room while his write loop fetches nothing, and \<open>ann\<close> is registered;
  the queue of \<open>bob\<close> then holds 256 payloads and is full. \<open>bob\<close> asks for \<open>/users\<close>:
  \<open>sendToClient\<close> finds his queue full and closes it, but leaves him in the membership
  of the room. The next message broadcast to the room, in which the queue of \<open>ann\<close>
  is open and has room, is not offered to each member: wherever \<open>bob\<close> stands in the
  order of the range (\<open>range_closed\<close>), the loop panics on the send to his closed
  queue; he is not evicted and the broadcast does not complete.
\<close>

theorem broadcast_panics_on_closed_member:
  "run text_only (newHub fresh_store)
     (Register bob t0 # replicate 254 (Broadcast ''lobby'' hello)
        @ [Register ann t0, Command bob ''/users'' t0 as_listed]) = Inr lobby_shut
   \<and> sendToClient text_only lobby_two bob hello = Inr lobby_shut
   \<and> members lobby_shut ''lobby'' = [bob, ann]
   \<and> \<not> closed (chans lobby_shut (Send ann)) \<and> has_room lobby_shut ann
   \<and> broadcastToRoom text_only lobby_shut ''lobby'' hello = Inl SendOnClosedChannel"
proof -
  have "sendToClient text_only lobby_two bob hello = Inr lobby_shut
   \<and> members lobby_shut ''lobby'' = [bob, ann]
   \<and> \<not> closed (chans lobby_shut (Send ann)) \<and> has_room lobby_shut ann
   \<and> broadcastToRoom text_only lobby_shut ''lobby'' hello = Inl SendOnClosedChannel"
    by (simp add: sendToClient_def try_send_def close_chan_def lobby_two_def lobby_shut_def
        bob_def ann_def backlog_def members_def broadcastToRoom_def has_room_def fun_eq_iff)
  with lobby_shut_reached show ?thesis by simp
qed

section \<open>Registration\<close>

lemma members_update [simp]:
  "members (h\<lparr>rooms := AList.update name room (rooms h)\<rparr>) name = Clients room"
  by (simp add: members_def update_conv')

lemma open_queues_append_single:
  "open_queues h (ms @ [c]) \<Longrightarrow> c \<notin> set ms \<and> open_queues h ms \<and> \<not> closed (chans h (Send c))"
  by (auto simp: open_queues_def)

text \<open>
  What a registration does when the joiner's queue is open and has room and the members
  of its room have open queues of their own. It completes: a room that was unknown is
  created and entered in the directory with the joiner as its only member; the joiner
  is a member afterwards and the "joined" notice is appended to its queue; the members
  found in the room are offered the same notice, and no other queue changes, so the
  joiner of an unknown room is the only recipient.
\<close>

lemma register_broadcasts_to_joiner:
  assumes "open_queues h (members h (Client.Room c) @ [c])" and "has_room h c"
  shows "\<exists>h'. addClientToRoom M h c now = Inr h'
           \<and> members h' (Client.Room c) = filter (has_room h) (members h (Client.Room c)) @ [c]
           \<and> (map_of (rooms h) (Client.Room c) = None \<longrightarrow>
                map_of (rooms h') (Client.Room c) = Some \<lparr>Name = Client.Room c, Clients = [c]\<rparr>)
           \<and> chans h' (Send c) =
                 (chans h (Send c))\<lparr>buf := buf (chans h (Send c)) @ [M (JMessage (join_notice c now))]\<rparr>
           \<and> (\<forall>m\<in>set (members h (Client.Room c)).
                 chans h' (Send m) = offer (M (JMessage (join_notice c now))) (chans h (Send m)))
           \<and> (\<forall>r. r \<notin> Send ` set (members h (Client.Room c) @ [c]) \<longrightarrow> chans h' r = chans h r)"
proof -
  let ?n = "Client.Room c"
  let ?msg = "join_notice c now"
  from open_queues_append_single[OF assms(1)] have notin: "c \<notin> set (members h ?n)" by simp
  have oc: "offer (M (JMessage ?msg)) (chans h (Send c))
      = (chans h (Send c))\<lparr>buf := buf (chans h (Send c)) @ [M (JMessage ?msg)]\<rparr>"
    using assms(2) by (simp add: offer_def has_room_def)
  show ?thesis
  proof (cases "map_of (rooms h) ?n")
    case None
    let ?room = "\<lparr>Name = ?n, Clients = [c]\<rparr>"
    let ?h2 = "h\<lparr>rooms := AList.update ?n ?room (rooms h)\<rparr>"
    have m: "members h ?n = []" using None by (simp add: members_def)
    have r2: "map_of (rooms ?h2) ?n = Some ?room" by (simp add: update_conv')
    have o2: "open_queues ?h2 (Clients ?room)"
      using assms(1) m by (simp add: open_queues_def)
    have hr: "has_room ?h2 = has_room h" by (simp add: has_room_def fun_eq_iff)
    have a: "addClientToRoom M h c now = broadcastToRoom M ?h2 ?n ?msg"
      using None by (simp add: addClientToRoom_def add_client_def update_conv' Let_def)
    show ?thesis
      unfolding a broadcast_open[OF r2 o2] using assms(2) None m oc
      by (simp add: hr update_conv' members_def)
  next
    case (Some room)
    let ?room = "room\<lparr>Clients := Clients room @ [c]\<rparr>"
    let ?h2 = "h\<lparr>rooms := AList.update ?n ?room (rooms h)\<rparr>"
    have m: "members h ?n = Clients room" using Some by (simp add: members_def)
    have r2: "map_of (rooms ?h2) ?n = Some ?room" by (simp add: update_conv')
    have o2: "open_queues ?h2 (Clients ?room)"
      using assms(1) m by (simp add: open_queues_def)
    have hr: "has_room ?h2 = has_room h" by (simp add: has_room_def fun_eq_iff)
    have a: "addClientToRoom M h c now = broadcastToRoom M ?h2 ?n ?msg"
      using Some notin m by (simp add: addClientToRoom_def add_client_def Let_def)
    show ?thesis
      unfolding a broadcast_open[OF r2 o2] using assms(2) Some m oc
      by (simp add: hr update_conv' members_def)
  qed
qed

text \<open>
  C7 on the code. In the state \<open>lobby_shut\<close>, reached from the empty directory as for
  C4 (the reply to \<open>/users\<close> has closed the full queue of \<open>bob\<close> and left him in the
  room), \<open>carl\<close> connects and gets a queue of his own that is open and empty. His
  registration adds him to the room, and the broadcast of the "joined" notice panics on
  the send to the closed queue of \<open>bob\<close>, wherever \<open>bob\<close> stands in the order of
  the range: the broadcast of the notice does not complete.
\<close>

theorem register_panics_on_closed_member:
  "run text_only (newHub fresh_store)
     (Register bob t0 # replicate 254 (Broadcast ''lobby'' hello)
        @ [Register ann t0, Command bob ''/users'' t0 as_listed]) = Inr lobby_shut
   \<and> handleWebSocket ''carl'' ''lobby'' (Some 3) 0 3 lobby_shut = (Session carl, lobby_shut)
   \<and> \<not> closed (chans lobby_shut (Send carl)) \<and> has_room lobby_shut carl
   \<and> carl \<notin> set (members lobby_shut ''lobby'')
   \<and> addClientToRoom text_only lobby_shut carl t0 = Inl SendOnClosedChannel"
proof -
  have w: "handleWebSocket ''carl'' ''lobby'' (Some 3) 0 3 lobby_shut = (Session carl, lobby_shut)"
    by (simp add: handleWebSocket_def TrimSpace_lobby string_of_nat_0 carl_def lobby_shut_def
        fresh_store_def fun_eq_iff)
  have "\<not> closed (chans lobby_shut (Send carl)) \<and> has_room lobby_shut carl
   \<and> carl \<notin> set (members lobby_shut ''lobby'')
   \<and> addClientToRoom text_only lobby_shut carl t0 = Inl SendOnClosedChannel"
    by (simp add: try_send_def lobby_shut_def members_def
        bob_def ann_def carl_def backlog_def fresh_store_def make_chan_def has_room_def
        addClientToRoom_def add_client_def broadcastToRoom_def Let_def)
  with lobby_shut_reached w show ?thesis by simp
qed

section \<open>Unregistration\<close>

lemma unregister_of_non_member:
  assumes "c \<notin> set (members h (Client.Room c))" and "open_queues h (members h (Client.Room c))"
  shows "\<exists>h'. removeClientFromRoom M h c now = Inr h'
           \<and> (map_of (rooms h) (Client.Room c) = None \<longrightarrow> h' = h)
           \<and> members h' (Client.Room c) = filter (has_room h) (members h (Client.Room c))
           \<and> (map_of (rooms h') (Client.Room c) = None
                 \<longleftrightarrow> filter (has_room h) (members h (Client.Room c)) = [])
           \<and> (\<forall>m\<in>set (members h (Client.Room c)).
                 chans h' (Send m) = offer (M (JMessage (leave_notice c now))) (chans h (Send m)))
           \<and> (\<forall>r. r \<notin> Send ` set (members h (Client.Room c)) \<longrightarrow> chans h' r = chans h r)
           \<and> (\<forall>n. n \<noteq> Client.Room c \<longrightarrow> map_of (rooms h') n = map_of (rooms h) n)"
proof (cases "map_of (rooms h) (Client.Room c)")
  case None
  then show ?thesis by (simp add: removeClientFromRoom_def members_def)
next
  case (Some room)
  let ?n = "Client.Room c"
  have m: "members h ?n = Clients room" using Some by (simp add: members_def)
  from assms m have notin: "c \<notin> set (Clients room)" and o: "open_queues h (Clients room)"
    by simp_all
  let ?kept = "filter (has_room h) (Clients room)"
  let ?h2 = "h\<lparr>rooms := AList.update ?n (room\<lparr>Clients := ?kept\<rparr>) (rooms h),
              chans := (\<lambda>r. if r \<in> Send ` set (Clients room)
                          then offer (M (JMessage (leave_notice c now))) (chans h r)
                          else chans h r)\<rparr>"
  have len: "room_len ?h2 ?n = length ?kept"
    by (simp add: room_len_def update_conv')
  have r: "removeClientFromRoom M h c now =
      Inr (if length ?kept = 0 then ?h2\<lparr>rooms := AList.delete ?n (rooms ?h2)\<rparr> else ?h2)"
    using Some notin len
    by (simp add: removeClientFromRoom_def broadcast_open[OF Some o] del: length_0_conv)
  show ?thesis
    unfolding r m using Some
    by (simp add: members_def update_conv' delete_conv')
qed

text \<open>
  C3, as amended. Unregistering a session that is no longer in the membership of its
  room changes nothing when the room is absent from the directory. When the room is
  still in the directory (its members' queues open), the call leaves the closed queue
  of the session as it is, but it still broadcasts the "left" notice: every member is
  offered it, a member whose queue is full is evicted, and the room is deleted from
  the directory exactly when no member remains; every other room and every queue
  outside the room's membership is as it was.
\<close>

theorem unregister_of_removed_session:
  assumes "c \<notin> set (members h (Client.Room c))" and "open_queues h (members h (Client.Room c))"
  shows "\<exists>h'. removeClientFromRoom M h c now = Inr h'
           \<and> (map_of (rooms h) (Client.Room c) = None \<longrightarrow> h' = h)
           \<and> (closed (chans h (Send c)) \<longrightarrow> chans h' (Send c) = chans h (Send c))
           \<and> members h' (Client.Room c) = filter (has_room h) (members h (Client.Room c))
           \<and> (map_of (rooms h') (Client.Room c) = None
                 \<longleftrightarrow> filter (has_room h) (members h (Client.Room c)) = [])
           \<and> (\<forall>m\<in>set (members h (Client.Room c)).
                 chans h' (Send m) = offer (M (JMessage (leave_notice c now))) (chans h (Send m)))
           \<and> (\<forall>r. r \<notin> Send ` set (members h (Client.Room c)) \<longrightarrow> chans h' r = chans h r)
           \<and> (\<forall>n. n \<noteq> Client.Room c \<longrightarrow> map_of (rooms h') n = map_of (rooms h) n)"
proof -
  from unregister_of_non_member[OF assms, of M now] obtain h' where
    h': "removeClientFromRoom M h c now = Inr h'"
      "map_of (rooms h) (Client.Room c) = None \<longrightarrow> h' = h"
      "members h' (Client.Room c) = filter (has_room h) (members h (Client.Room c))"
      "map_of (rooms h') (Client.Room c) = None
         \<longleftrightarrow> filter (has_room h) (members h (Client.Room c)) = []"
      "\<forall>m\<in>set (members h (Client.Room c)).
         chans h' (Send m) = offer (M (JMessage (leave_notice c now))) (chans h (Send m))"
      "\<forall>r. r \<notin> Send ` set (members h (Client.Room c)) \<longrightarrow> chans h' r = chans h r"
      "\<forall>n. n \<noteq> Client.Room c \<longrightarrow> map_of (rooms h') n = map_of (rooms h) n"
    by (elim exE conjE) (rule that, assumption+)
  have own: "closed (chans h (Send c)) \<longrightarrow> chans h' (Send c) = chans h (Send c)"
  proof
    assume cl: "closed (chans h (Send c))"
    have "Send c \<notin> Send ` set (members h (Client.Room c))"
    proof
      assume "Send c \<in> Send ` set (members h (Client.Room c))"
      then obtain m where "m \<in> set (members h (Client.Room c))" "Send m = Send c" by auto
      with assms(2) cl show False by (auto simp: open_queues_def list_all_iff)
    qed
    with h'(6) show "chans h' (Send c) = chans h (Send c)" by blast
  qed
  show ?thesis
    by (intro exI[of _ h'] conjI h' own)
qed

theorem unregister_of_removed_session_witness:
  "bob \<notin> set (members lobby_ann (Client.Room bob))
   \<and> open_queues lobby_ann (members lobby_ann (Client.Room bob))
   \<and> (\<exists>h'. removeClientFromRoom text_only lobby_ann bob t0 = Inr h'
         \<and> members h' ''lobby'' = [ann]
         \<and> chans h' (Send ann) =
               \<lparr>buf = [''ann joined the room'', ''hello'', ''bob left the room''],
                cap = 256, closed = False\<rparr>
         \<and> chans h' (Send bob) = chans lobby_ann (Send bob))"
proof -
  have m: "members lobby_ann (Client.Room bob) = [ann]"
    by (simp add: members_def lobby_ann_def bob_def)
  have a: "bob \<notin> set (members lobby_ann (Client.Room bob))"
    unfolding m by (simp add: bob_def ann_def)
  have b: "open_queues lobby_ann (members lobby_ann (Client.Room bob))"
    unfolding m by (simp add: open_queues_def lobby_ann_def ann_def)
  have r: "Client.Room bob = ''lobby''" by (simp add: bob_def)
  have f: "filter (has_room lobby_ann) [ann] = [ann]"
    by (simp add: has_room_def lobby_ann_def ann_def)
  have q: "offer (text_only (JMessage (leave_notice bob t0))) (chans lobby_ann (Send ann))
       = \<lparr>buf = [''ann joined the room'', ''hello'', ''bob left the room''],
          cap = 256, closed = False\<rparr>"
    by (simp add: offer_def lobby_ann_def ann_def text_only_def leave_notice_def bob_def)
  have s: "Send bob \<notin> Send ` set [ann]" by (simp add: bob_def ann_def)
  from unregister_of_removed_session[OF a b, of text_only t0]
  obtain h' where h': "removeClientFromRoom text_only lobby_ann bob t0 = Inr h'"
    "members h' (Client.Room bob) = filter (has_room lobby_ann) (members lobby_ann (Client.Room bob))"
    "\<forall>m\<in>set (members lobby_ann (Client.Room bob)).
        chans h' (Send m) = offer (text_only (JMessage (leave_notice bob t0))) (chans lobby_ann (Send m))"
    "\<forall>r. r \<notin> Send ` set (members lobby_ann (Client.Room bob)) \<longrightarrow> chans h' r = chans lobby_ann r"
    by (elim exE conjE) (rule that, assumption+)
  from h'(2) have "members h' ''lobby'' = [ann]" using m r f by simp
  moreover from h'(3) q have "chans h' (Send ann) =
      \<lparr>buf = [''ann joined the room'', ''hello'', ''bob left the room''], cap = 256, closed = False\<rparr>"
    unfolding m by simp
  moreover from h'(4) s have "chans h' (Send bob) = chans lobby_ann (Send bob)"
    unfolding m by blast
  ultimately show ?thesis using a b h'(1) by blast
qed

text \<open>
  C3 as stated fails. A broadcast in \<open>lobby_two\<close> has evicted \<open>bob\<close> from the
  membership; the unregistration that follows when his read loop ends is no no-op: it
  puts a "left" notice into \<open>ann\<close>'s queue.
\<close>

theorem unregister_of_removed_session_notifies:
  "broadcastToRoom text_only lobby_two ''lobby'' hello = Inr lobby_ann
   \<and> bob \<notin> set (members lobby_ann ''lobby'')
   \<and> buf (chans lobby_ann (Send ann)) = [''ann joined the room'', ''hello'']
   \<and> (\<exists>h'. removeClientFromRoom text_only lobby_ann bob t0 = Inr h'
          \<and> buf (chans h' (Send ann)) =
                [''ann joined the room'', ''hello'', ''bob left the room''])"
  by (simp add: removeClientFromRoom_def broadcastToRoom_def try_send_def close_chan_def
      delete_client_def enqueue_def room_len_def update_conv' lobby_two_def lobby_ann_def
      members_def bob_def ann_def backlog_def leave_notice_def text_only_def hello_def)

section \<open>Direct replies on a full queue\<close>

text \<open>
  C9. When \<open>sendToClient\<close> finds the requester's queue open and full, it closes the
  queue and leaves the directory as it was, so the requester stays in the membership
  of its room with a closed queue; the next broadcast to that room then sends on the
  closed queue, which is a panic in Go.
\<close>

theorem sendToClient_full_closes_but_keeps_member:
  assumes "\<not> closed (chans h (Send c))" and "\<not> has_room h c"
    and "c \<in> set (members h name)"
  shows "\<exists>h'. sendToClient M h c reply = Inr h'
           \<and> closed (chans h' (Send c))
           \<and> rooms h' = rooms h
           \<and> c \<in> set (members h' name)
           \<and> broadcastToRoom M h' name msg = Inl SendOnClosedChannel"
proof -
  let ?h' = "h\<lparr>chans := (chans h)(Send c := (chans h (Send c))\<lparr>closed := True\<rparr>)\<rparr>"
  have s: "sendToClient M h c reply = Inr ?h'"
    using assms(1,2) by (simp add: sendToClient_def try_send_def close_chan_def has_room_def)
  have m: "c \<in> set (members ?h' name)" using assms(3) by (simp add: members_def)
  have "closed (chans ?h' (Send c))" by simp
  from broadcast_closed_member[OF m this] s m show ?thesis by simp
qed

theorem sendToClient_full_closes_but_keeps_member_witness:
  "\<not> closed (chans lobby_full (Send bob)) \<and> \<not> has_room lobby_full bob
   \<and> bob \<in> set (members lobby_full ''lobby'')
   \<and> (\<exists>h'. sendToClient text_only lobby_full bob hello = Inr h'
           \<and> closed (chans h' (Send bob))
           \<and> rooms h' = rooms lobby_full
           \<and> bob \<in> set (members h' ''lobby'')
           \<and> broadcastToRoom text_only h' ''lobby'' hello = Inl SendOnClosedChannel)"
proof -
  have a: "\<not> closed (chans lobby_full (Send bob))"
    by (simp add: lobby_full_def bob_def full_queue_def)
  have b: "\<not> has_room lobby_full bob"
    by (simp add: lobby_full_def bob_def full_queue_def has_room_def)
  have c: "bob \<in> set (members lobby_full ''lobby'')"
    by (simp add: lobby_full_def members_def)
  from sendToClient_full_closes_but_keeps_member[OF a b c, of text_only hello hello] a b c
  show ?thesis by blast
qed

section \<open>Closing a queue\<close>





lemma room_members_simps [simp]:
  "room_members [] = []"
  "room_members ((n, room) # al) = Clients room @ room_members al"
  "room_members (xs @ ys) = room_members xs @ room_members ys"
  by (simp_all add: room_members_def)

lemma rooms_named_simps [simp]:
  "rooms_named [] = True"
  "rooms_named ((n, room) # al) = ((\<forall>c\<in>set (Clients room). Client.Room c = n) \<and> rooms_named al)"
  "rooms_named (xs @ ys) = (rooms_named xs \<and> rooms_named ys)"
  by (auto simp: rooms_named_def list_all_iff)























text \<open>The queue the connection handler gives a new session: its own, open and empty.\<close>

lemma handleWebSocket_fresh_queue:
  assumes "handleWebSocket username room upgrade unix ref h = (Session c, h')"
  shows "Send c = ref \<and> chans h' (Send c) = make_chan 256
       \<and> \<not> closed (chans h' (Send c)) \<and> has_room h' c"
  using assms
  by (auto simp: handleWebSocket_def Let_def make_chan_def has_room_def
      split: if_splits option.splits)




section \<open>The read loop and the commands\<close>

lemma Format_t0: "Format t0 = ''09:05:00''"
  by (simp add: Format_def two_digits_def digit_def t0_def)

lemma Format_nonempty: "Format now \<noteq> []"
  by (simp add: Format_def two_digits_def)

lemma sendToClient_frame:
  "sendToClient M h c reply = Inr h' \<Longrightarrow>
   rooms h' = rooms h \<and> (\<forall>r. r \<noteq> Send c \<longrightarrow> chans h' r = chans h r)"
  by (auto simp: sendToClient_def try_send_def close_chan_def enqueue_def split: if_splits)

lemma sendToClient_room:
  "\<not> closed (chans h (Send c)) \<Longrightarrow> has_room h c \<Longrightarrow>
   sendToClient M h c reply =
     Inr (h\<lparr>chans := (chans h)(Send c := (chans h (Send c))
            \<lparr>buf := buf (chans h (Send c)) @ [M (JMessage reply)]\<rparr>)\<rparr>)"
  by (simp add: sendToClient_def try_send_def has_room_def enqueue_def)

lemma handleCommand_frame:
  "handleCommand M rank h c cmd now = Inr h' \<Longrightarrow>
   rooms h' = rooms h \<and> (\<forall>r. r \<noteq> Send c \<longrightarrow> chans h' r = chans h r)"
  by (auto simp: handleCommand_def send_def enqueue_def Let_def
      split: option.splits if_splits dest: sendToClient_frame)

text \<open>
  Every order of the members is the order of some \<open>rank\<close>: the position in the order.
\<close>

lemma filter_only:
  "distinct xs \<Longrightarrow> k \<in> set xs \<Longrightarrow> (\<And>x. x \<in> set xs \<Longrightarrow> P x = (x = k)) \<Longrightarrow> filter P xs = [k]"
proof (induction xs)
  case Nil then show ?case by simp
next
  case (Cons a xs)
  show ?case
  proof (cases "a = k")
    case True
    with Cons.prems have "\<And>x. x \<in> set xs \<Longrightarrow> \<not> P x" by auto
    then have "filter P xs = []" by (simp add: filter_empty_conv)
    with True Cons.prems show ?thesis by simp
  next
    case False
    with Cons.prems have "filter P xs = [k]" by (intro Cons.IH) auto
    with False Cons.prems show ?thesis by simp
  qed
qed

lemma position_nth:
  "distinct p \<Longrightarrow> i < length p \<Longrightarrow> length (takeWhile (\<lambda>x. x \<noteq> p ! i) p) = i"
proof (induction p arbitrary: i)
  case Nil
  then show ?case by simp
next
  case (Cons a p)
  show ?case
  proof (cases i)
    case 0
    then show ?thesis by simp
  next
    case (Suc j)
    with Cons.prems have j: "j < length p" and d: "distinct p" and a: "a \<notin> set p" by simp_all
    from j a have "p ! j \<noteq> a" by (metis nth_mem)
    with Cons.IH[OF d j] Suc show ?thesis by simp
  qed
qed

lemma any_order_has_rank:
  assumes "distinct cs" and "mset p = mset cs"
  shows "\<exists>rank :: 'a \<Rightarrow> nat. sort_key rank cs = p"
proof -
  define rank where "rank c = length (takeWhile (\<lambda>x. x \<noteq> c) p)" for c
  from assms have dp: "distinct p" by (metis mset_eq_imp_distinct_iff)
  from assms(2) have sp: "set p = set cs" by (rule mset_eq_setD)
  have nth: "rank (p ! i) = i" if "i < length p" for i
    unfolding rank_def using dp that by (rule position_nth)
  have inj: "x = y" if "x \<in> set p" "y \<in> set p" "rank x = rank y" for x y
  proof -
    from that(1) obtain i where i: "i < length p" "p ! i = x" by (auto simp: in_set_conv_nth)
    from that(2) obtain j where j: "j < length p" "p ! j = y" by (auto simp: in_set_conv_nth)
    from nth[OF i(1)] nth[OF j(1)] that(3) i(2) j(2) have "i = j" by simp
    with i j show ?thesis by simp
  qed
  have srt: "sorted (map rank p)"
  proof -
    have "map rank p = [0..<length p]"
      by (intro nth_equalityI) (simp_all add: nth)
    then show ?thesis by simp
  qed
  have "sort_key rank cs = p"
  proof (rule properties_for_sort_key[OF assms(2)])
    fix k assume k: "k \<in> set p"
    have "filter (\<lambda>x. rank k = rank x) p = [k]"
      using dp k inj by (intro filter_only) auto
    moreover have "filter (\<lambda>x. rank k = rank x) cs = [k]"
      using assms(1) k inj sp by (intro filter_only) auto
    ultimately show "filter (\<lambda>x. rank k = rank x) p = filter (\<lambda>x. rank k = rank x) cs" by simp
  next
    show "sorted (map rank p)" by (rule srt)
  qed
  then show ?thesis by blast
qed

text \<open>
  C6. A decoded frame whose text does not start with \<open>/\<close> is handed to the
  broadcaster for the session's room with type \<open>chat\<close>, the session's username and
  room, the inbound text and the formatted clock, which is never empty, whatever the
  frame said about type, room, username and time; a frame that does not decode is
  skipped and the loop goes on with the next frame.
\<close>

theorem readPump_stamps_chat:
  assumes "\<not> HasPrefix (Text msg) ''/''"
  shows "readPump M c ((Frame (Some msg), now, rank) # fs) h =
           (case broadcastToRoom M h (Client.Room c)
                   \<lparr>Type = ''chat'', Room = Client.Room c, Username = Client.Username c,
                    Text = Text msg, Time = Format now\<rparr> of
              Inl e \<Rightarrow> Inl e
            | Inr h' \<Rightarrow> readPump M c fs h')
         \<and> Format now \<noteq> []
         \<and> readPump M c ((Frame None, now, rank) # fs) h = readPump M c fs h"
proof -
  have eq: "msg\<lparr>Message.Username := Client.Username c, Message.Room := Client.Room c,
            Type := ''chat'', Time := Format now\<rparr>
      = \<lparr>Type = ''chat'', Room = Client.Room c, Username = Client.Username c,
         Text = Text msg, Time = Format now\<rparr>"
    by (cases msg) simp
  show ?thesis using assms Format_nonempty by (simp add: eq)
qed

theorem readPump_stamps_chat_witness:
  "\<not> HasPrefix (Text spoof) ''/''
   \<and> readPump text_only bob [(Frame (Some spoof), t0, as_listed)] lobby_two =
       broadcastToRoom text_only lobby_two ''lobby''
         \<lparr>Type = ''chat'', Room = ''lobby'', Username = ''bob'', Text = ''hi'', Time = ''09:05:00''\<rparr>
   \<and> readPump text_only bob [(Frame None, t0, as_listed), (Frame (Some spoof), t0, as_listed)] lobby_two =
       readPump text_only bob [(Frame (Some spoof), t0, as_listed)] lobby_two"
proof -
  have a: "\<not> HasPrefix (Text spoof) ''/''" by (simp add: HasPrefix_def spoof_def)
  have b: "(case r of Inl e \<Rightarrow> Inl e | Inr h' \<Rightarrow> readPump text_only bob [] h') = r" for r
    by (cases r) simp_all
  from readPump_stamps_chat[OF a, of text_only bob t0 as_listed "[]" lobby_two]
    readPump_stamps_chat[OF a, of text_only bob t0 as_listed "[(Frame (Some spoof), t0, as_listed)]" lobby_two]
  show ?thesis using a
    by (simp only: b Format_t0) (simp add: bob_def spoof_def)
qed

text \<open>
  C8, as amended. When the requester's room is in the directory and the requester's
  queue is open and has room, \<open>/users\<close> appends exactly one payload to the requester's
  queue and changes nothing else: the encoding of a reply of type \<open>user_list\<close> whose
  text joins, with a comma and a space, the usernames of the members of the room, each
  member once, in the order this call's range visits them. Whatever the command, the
  order and the outcome, a call that completes leaves the directory and the queue of
  every other session as they were.
\<close>

theorem users_reply_goes_to_requester:
  assumes "map_of (rooms h) (Client.Room c) = Some room"
    and "\<not> closed (chans h (Send c))" and "has_room h c"
  shows "handleCommand M rank h c ''/users'' now =
           Inr (h\<lparr>chans := (chans h)(Send c := (chans h (Send c))
                  \<lparr>buf := buf (chans h (Send c)) @
                     [M (JMessage \<lparr>Type = ''user_list'', Room = Name room,
                                   Username = Client.Username c,
                                   Text = Join (map Client.Username (sort_key rank (Clients room))) '', '',
                                   Time = Format now\<rparr>)]\<rparr>)\<rparr>)
         \<and> mset (sort_key rank (Clients room)) = mset (Clients room)
         \<and> (\<forall>cmd rank' h'. handleCommand M rank' h c cmd now = Inr h' \<longrightarrow>
               rooms h' = rooms h \<and> (\<forall>r. r \<noteq> Send c \<longrightarrow> chans h' r = chans h r))"
proof -
  have a: "handleCommand M rank h c ''/users'' now =
           sendToClient M h c
             \<lparr>Type = ''user_list'', Room = Name room, Username = Client.Username c,
              Text = Join (map Client.Username (sort_key rank (Clients room))) '', '',
              Time = Format now\<rparr>"
    using assms(1) by (simp add: handleCommand_def MsgUserList_def)
  have f: "\<forall>cmd rank' h'. handleCommand M rank' h c cmd now = Inr h' \<longrightarrow>
               rooms h' = rooms h \<and> (\<forall>r. r \<noteq> Send c \<longrightarrow> chans h' r = chans h r)"
    using handleCommand_frame by blast
  show ?thesis
    unfolding a sendToClient_room[OF assms(2,3)] using f by simp
qed

theorem users_reply_goes_to_requester_witness:
  "map_of (rooms lobby_two) (Client.Room ann) = Some \<lparr>Name = ''lobby'', Clients = [bob, ann]\<rparr>
   \<and> \<not> closed (chans lobby_two (Send ann)) \<and> has_room lobby_two ann
   \<and> handleCommand text_only as_listed lobby_two ann ''/users'' t0 =
        Inr (lobby_two\<lparr>chans := (chans lobby_two)
               (2 := \<lparr>buf = [''ann joined the room'', ''bob, ann''], cap = 256, closed = False\<rparr>)\<rparr>)
   \<and> handleCommand text_only ann_first lobby_two ann ''/users'' t0 =
        Inr (lobby_two\<lparr>chans := (chans lobby_two)
               (2 := \<lparr>buf = [''ann joined the room'', ''ann, bob''], cap = 256, closed = False\<rparr>)\<rparr>)"
proof -
  let ?room = "\<lparr>Name = ''lobby'', Clients = [bob, ann]\<rparr>"
  have a: "map_of (rooms lobby_two) (Client.Room ann) = Some ?room"
    by (simp add: lobby_two_def ann_def)
  have o: "\<not> closed (chans lobby_two (Send ann))" by (simp add: lobby_two_def ann_def)
  have r: "has_room lobby_two ann" by (simp add: lobby_two_def ann_def has_room_def)
  have n: "bob \<noteq> ann" by (simp add: bob_def ann_def)
  have s1: "sort_key as_listed (Clients ?room) = [bob, ann]" by (simp add: as_listed_def)
  have s2: "sort_key ann_first (Clients ?room) = [ann, bob]" using n by (simp add: ann_first_def)
  have c: "chans lobby_two (Send ann) = \<lparr>buf = [''ann joined the room''], cap = 256, closed = False\<rparr>"
    and sa: "Send ann = 2"
    by (simp_all add: lobby_two_def ann_def)
  note T1 = users_reply_goes_to_requester[OF a o r, of text_only as_listed t0, THEN conjunct1]
  note T2 = users_reply_goes_to_requester[OF a o r, of text_only ann_first t0, THEN conjunct1]
  from T1 have "handleCommand text_only as_listed lobby_two ann ''/users'' t0 =
        Inr (lobby_two\<lparr>chans := (chans lobby_two)
               (2 := \<lparr>buf = [''ann joined the room'', ''bob, ann''], cap = 256, closed = False\<rparr>)\<rparr>)"
    unfolding s1 c by (simp add: sa text_only_def bob_def ann_def)
  moreover from T2 have "handleCommand text_only ann_first lobby_two ann ''/users'' t0 =
        Inr (lobby_two\<lparr>chans := (chans lobby_two)
               (2 := \<lparr>buf = [''ann joined the room'', ''ann, bob''], cap = 256, closed = False\<rparr>)\<rparr>)"
    unfolding s2 c by (simp add: sa text_only_def bob_def ann_def)
  ultimately show ?thesis using a o r by simp
qed

text \<open>
  C8 as stated fails when the requester's queue is not open with room, also with the
  room in the directory. In \<open>lobby_two\<close> the queue of \<open>bob\<close> is full: his \<open>/users\<close>
  puts no reply on any queue, his queue holds what it held and is closed. After that
  his queue is closed, and his next \<open>/users\<close> is a send on a closed channel, a panic.
\<close>

theorem users_reply_dropped_on_full_queue:
  "map_of (rooms lobby_two) (Client.Room bob) = Some \<lparr>Name = ''lobby'', Clients = [bob, ann]\<rparr>
   \<and> \<not> closed (chans lobby_two (Send bob)) \<and> \<not> has_room lobby_two bob
   \<and> handleCommand text_only as_listed lobby_two bob ''/users'' t0 = Inr lobby_shut
   \<and> buf (chans lobby_shut (Send bob)) = buf (chans lobby_two (Send bob))
   \<and> buf (chans lobby_shut (Send ann)) = buf (chans lobby_two (Send ann))
   \<and> closed (chans lobby_shut (Send bob))
   \<and> map_of (rooms lobby_shut) (Client.Room bob) = Some \<lparr>Name = ''lobby'', Clients = [bob, ann]\<rparr>
   \<and> handleCommand text_only as_listed lobby_shut bob ''/users'' t0 = Inl SendOnClosedChannel"
  by (simp add: handleCommand_def sendToClient_def try_send_def close_chan_def lobby_two_def
      lobby_shut_def bob_def ann_def backlog_def has_room_def fun_eq_iff)

text \<open>
  C10, as amended. The read loop hands every text that starts with \<open>/\<close> to the
  dispatch, which compares it with the three command strings as a whole. For a text
  that is none of the three and a requester whose queue is open and has room, the
  dispatch appends exactly one payload to the requester's queue and changes nothing
  else: the encoding of a system reply, whose text is the list of the available
  commands when the requester's room is in the directory, and \<open>Room does not exist.\<close>
  when it is not.
\<close>

theorem unknown_command_reply:
  assumes "cmd \<notin> {''/users'', ''/stats'', ''/rooms''}"
    and "\<not> closed (chans h (Send c))" and "has_room h c"
  shows "handleCommand M rank h c cmd now =
           Inr (h\<lparr>chans := (chans h)(Send c := (chans h (Send c))
                  \<lparr>buf := buf (chans h (Send c)) @
                     [M (JMessage \<lparr>Type = ''system'', Room = [], Username = [],
                                   Text = (if map_of (rooms h) (Client.Room c) = None
                                           then ''Room does not exist.''
                                           else ''Unknown command. Available commands: /users, /stats, /rooms''),
                                   Time = []\<rparr>)]\<rparr>)\<rparr>)
         \<and> (\<forall>msg fs. HasPrefix (Text msg) ''/'' \<and> Text msg = cmd \<longrightarrow>
               readPump M c ((Frame (Some msg), now, rank) # fs) h =
                 (case handleCommand M rank h c cmd now of
                    Inl e \<Rightarrow> Inl e
                  | Inr h' \<Rightarrow> readPump M c fs h'))"
proof -
  have b: "\<forall>msg fs. HasPrefix (Text msg) ''/'' \<and> Text msg = cmd \<longrightarrow>
               readPump M c ((Frame (Some msg), now, rank) # fs) h =
                 (case handleCommand M rank h c cmd now of
                    Inl e \<Rightarrow> Inl e
                  | Inr h' \<Rightarrow> readPump M c fs h')"
    by auto
  have a: "handleCommand M rank h c cmd now =
           Inr (h\<lparr>chans := (chans h)(Send c := (chans h (Send c))
                  \<lparr>buf := buf (chans h (Send c)) @
                     [M (JMessage \<lparr>Type = ''system'', Room = [], Username = [],
                                   Text = (if map_of (rooms h) (Client.Room c) = None
                                           then ''Room does not exist.''
                                           else ''Unknown command. Available commands: /users, /stats, /rooms''),
                                   Time = []\<rparr>)]\<rparr>)\<rparr>)"
  proof (cases "map_of (rooms h) (Client.Room c)")
    case None
    then show ?thesis using assms(2,3)
      by (simp add: handleCommand_def send_def enqueue_def has_room_def MsgSystem_def)
  next
    case (Some room)
    have "handleCommand M rank h c cmd now =
           sendToClient M h c
             \<lparr>Type = ''system'', Room = [], Username = [],
              Text = ''Unknown command. Available commands: /users, /stats, /rooms'', Time = []\<rparr>"
      using assms(1) Some by (simp add: handleCommand_def MsgSystem_def)
    then show ?thesis unfolding sendToClient_room[OF assms(2,3)] using Some by simp
  qed
  from a b show ?thesis by (intro conjI)
qed

theorem unknown_command_reply_witness:
  "''/users '' \<notin> {''/users'', ''/stats'', ''/rooms''}
   \<and> \<not> closed (chans lobby_two (Send ann)) \<and> has_room lobby_two ann
   \<and> handleCommand text_only as_listed lobby_two ann ''/users '' t0 =
        Inr (lobby_two\<lparr>chans := (chans lobby_two)
               (2 := \<lparr>buf = [''ann joined the room'',
                              ''Unknown command. Available commands: /users, /stats, /rooms''],
                       cap = 256, closed = False\<rparr>)\<rparr>)
   \<and> readPump text_only ann [(Frame (Some (hello\<lparr>Text := ''/users ''\<rparr>)), t0, as_listed)] lobby_two =
        Inr (lobby_two\<lparr>chans := (chans lobby_two)
               (2 := \<lparr>buf = [''ann joined the room'',
                              ''Unknown command. Available commands: /users, /stats, /rooms''],
                       cap = 256, closed = False\<rparr>)\<rparr>)
   \<and> \<not> closed (chans (newHub fresh_store) (Send bob)) \<and> has_room (newHub fresh_store) bob
   \<and> handleCommand text_only as_listed (newHub fresh_store) bob ''/users '' t0 =
        Inr \<lparr>rooms = [],
             chans = fresh_store(1 := \<lparr>buf = [''Room does not exist.''], cap = 256, closed = False\<rparr>)\<rparr>"
proof -
  have b: "''/users '' \<notin> {''/users'', ''/stats'', ''/rooms''}" by simp
  have o: "\<not> closed (chans lobby_two (Send ann))" by (simp add: lobby_two_def ann_def)
  have r: "has_room lobby_two ann" by (simp add: lobby_two_def ann_def has_room_def)
  have o0: "\<not> closed (chans (newHub fresh_store) (Send bob))"
    by (simp add: newHub_def fresh_store_def make_chan_def)
  have r0: "has_room (newHub fresh_store) bob"
    by (simp add: newHub_def fresh_store_def make_chan_def has_room_def)
  have p: "HasPrefix (Text (hello\<lparr>Text := ''/users ''\<rparr>)) ''/'' \<and> Text (hello\<lparr>Text := ''/users ''\<rparr>) = ''/users ''"
    by (simp add: HasPrefix_def)
  note T = unknown_command_reply[OF b o r, of text_only as_listed t0]
  note T0 = unknown_command_reply[OF b o0 r0, of text_only as_listed t0, THEN conjunct1]
  from T[THEN conjunct1]
  have h: "handleCommand text_only as_listed lobby_two ann ''/users '' t0 =
        Inr (lobby_two\<lparr>chans := (chans lobby_two)
               (2 := \<lparr>buf = [''ann joined the room'',
                              ''Unknown command. Available commands: /users, /stats, /rooms''],
                       cap = 256, closed = False\<rparr>)\<rparr>)"
    by (simp add: text_only_def lobby_two_def ann_def)
  from T[THEN conjunct2] p
  have "readPump text_only ann [(Frame (Some (hello\<lparr>Text := ''/users ''\<rparr>)), t0, as_listed)] lobby_two =
                 (case handleCommand text_only as_listed lobby_two ann ''/users '' t0 of
                    Inl e \<Rightarrow> Inl e
                  | Inr h' \<Rightarrow> readPump text_only ann [] h')"
    by blast
  with h have q: "readPump text_only ann [(Frame (Some (hello\<lparr>Text := ''/users ''\<rparr>)), t0, as_listed)] lobby_two =
        Inr (lobby_two\<lparr>chans := (chans lobby_two)
               (2 := \<lparr>buf = [''ann joined the room'',
                              ''Unknown command. Available commands: /users, /stats, /rooms''],
                       cap = 256, closed = False\<rparr>)\<rparr>)"
    by simp
  from T0 have h0: "handleCommand text_only as_listed (newHub fresh_store) bob ''/users '' t0 =
        Inr \<lparr>rooms = [],
             chans = fresh_store(1 := \<lparr>buf = [''Room does not exist.''], cap = 256, closed = False\<rparr>)\<rparr>"
    by (simp add: text_only_def newHub_def fresh_store_def make_chan_def bob_def)
  from b o r h q o0 r0 h0 show ?thesis by (intro conjI)
qed

text \<open>
  C10 as stated fails in three ways. When the requester's room is not in the
  directory, as for a session whose registration the Hub has not served yet, the reply
  is the room-missing notice, not the list of commands. When the requester's queue is
  full, as the queue of \<open>bob\<close> in \<open>lobby_two\<close>, the requester receives no reply: the
  queue holds what it held and is closed. And when the requester's queue is closed,
  the dispatch panics.
\<close>

theorem command_before_room_exists:
  "''/help'' \<notin> {''/users'', ''/stats'', ''/rooms''}
   \<and> map_of (rooms (newHub fresh_store)) (Client.Room bob) = None
   \<and> (\<exists>h'. handleCommand text_only as_listed (newHub fresh_store) bob ''/help'' t0 = Inr h'
          \<and> buf (chans h' (Send bob)) = [''Room does not exist.''])
   \<and> \<not> closed (chans lobby_two (Send bob)) \<and> \<not> has_room lobby_two bob
   \<and> handleCommand text_only as_listed lobby_two bob ''/help'' t0 = Inr lobby_shut
   \<and> buf (chans lobby_shut (Send bob)) = buf (chans lobby_two (Send bob))
   \<and> closed (chans lobby_shut (Send bob))
   \<and> handleCommand text_only as_listed lobby_shut bob ''/help'' t0 = Inl SendOnClosedChannel"
  by (simp add: handleCommand_def newHub_def send_def sendToClient_def try_send_def
      close_chan_def enqueue_def fresh_store_def make_chan_def text_only_def MsgSystem_def
      lobby_two_def lobby_shut_def bob_def ann_def backlog_def has_room_def fun_eq_iff)

section \<open>The connection handler\<close>

text \<open>
  C5 on the code. The handler tests the room parameter for emptiness before it trims
  it: a request whose room is a single space passes the test, is upgraded, and the
  session is created with the empty room name.
\<close>

theorem blank_room_is_accepted:
  "handleWebSocket ''bob'' '' '' (Some 1) 0 1 h =
     (Session \<lparr>ID = ''bob-0'', Username = ''bob'', Conn = 1, Room = [], Send = 1\<rparr>,
      h\<lparr>chans := (chans h)(1 := make_chan 256)\<rparr>)"
  by (simp add: handleWebSocket_def TrimSpace_blank string_of_nat_0)


section \<open>The directory after an eviction\<close>

text \<open>
  C1 on the code. From the empty directory: \<open>bob\<close> connects and is registered, and 256
  messages are broadcast to his room while his write loop fetches nothing. The join
  notice and the first 255 messages fill the queue, the last broadcast evicts him, and
  the room stays in the directory with no member.
\<close>

theorem eviction_leaves_empty_room:
  "handleWebSocket ''bob'' ''lobby'' (Some 1) 0 1 (newHub fresh_store) =
     (Session bob, newHub fresh_store)
   \<and> (\<exists>h'. run text_only (newHub fresh_store)
               (Register bob t0 # replicate 256 (Broadcast ''lobby'' hello)) = Inr h'
          \<and> map_of (rooms h') ''lobby'' = Some \<lparr>Name = ''lobby'', Clients = []\<rparr>)"
proof -
  have c: "handleWebSocket ''bob'' ''lobby'' (Some 1) 0 1 (newHub fresh_store) =
     (Session bob, newHub fresh_store)"
    by (simp add: handleWebSocket_def TrimSpace_lobby string_of_nat_0 bob_def newHub_def
        fresh_store_def fun_eq_iff)
  have l: "broadcastToRoom text_only lobby_full ''lobby'' hello =
      Inr (lobby_full\<lparr>rooms := [(''lobby'', \<lparr>Name = ''lobby'', Clients = []\<rparr>)],
               chans := (chans lobby_full)(Send bob := full_queue\<lparr>closed := True\<rparr>)\<rparr>)"
    by (simp add: broadcastToRoom_def try_send_def close_chan_def delete_client_def bob_def
        lobby_full_def full_queue_def)
  have "replicate (255 + 1) (Broadcast ''lobby'' hello)
      = replicate 255 (Broadcast ''lobby'' hello) @ replicate 1 (Broadcast ''lobby'' hello)"
    by (rule replicate_add)
  then have "Register bob t0 # replicate 256 (Broadcast ''lobby'' hello)
      = (Register bob t0 # replicate 255 (Broadcast ''lobby'' hello)) @ [Broadcast ''lobby'' hello]"
    by simp
  then have "run text_only (newHub fresh_store)
               (Register bob t0 # replicate 256 (Broadcast ''lobby'' hello)) =
      Inr (lobby_full\<lparr>rooms := [(''lobby'', \<lparr>Name = ''lobby'', Clients = []\<rparr>)],
               chans := (chans lobby_full)(Send bob := full_queue\<lparr>closed := True\<rparr>)\<rparr>)"
    using lobby_full_reached l by (simp only: run_append) simp
  with c show ?thesis by simp
qed

end
